theory Spec2Isabelle
  imports Complex_Main "HOL-Library.AList" "HOL-Library.Sublist"
begin

section \<open>JavaScript values of a request\<close>

text \<open>
  A JavaScript number is a double. The handlers only take absolute values of numbers and
  compare them with the constants 90 and 180; both operations are exact on doubles, so a
  finite double is modelled by the rational it denotes (\<open>-0\<close> and \<open>+0\<close> are the
  same rational, as they are for \<open>Math.abs\<close>, \<open>>\<close> and truthiness).
\<close>

datatype jsnum = NaN | Fin rat | PosInf | NegInf

text \<open>
  The values a field of a parsed JSON body can have: absent (\<open>undefined\<close>), \<open>null\<close>,
  a boolean, a number, a string, or an array or object. An array or object is known by its
  identity only (\<open>JRef\<close>): that is how a \<open>Map\<close> compares it as a key.
\<close>

datatype jsval =
    JUndefined
  | JNull
  | JBool bool
  | JNumber jsnum
  | JString string
  | JRef nat

text \<open>
  The language's conversion of a string, and of an array or object, to a number (the
  \<open>StringToNumber\<close> grammar with its rounding to a double, and \<open>ToPrimitive\<close>)
  is not part of the repository; the model takes both as parameters.
\<close>

record js_env =
  StringToNumber :: "string \<Rightarrow> jsnum"
  RefToNumber :: "nat \<Rightarrow> jsnum"

text \<open>\<open>!v\<close> is \<open>\<not> truthy v\<close>.\<close>

fun truthy :: "jsval \<Rightarrow> bool" where
  "truthy JUndefined = False"
| "truthy JNull = False"
| "truthy (JBool b) = b"
| "truthy (JNumber n) = (n \<noteq> NaN \<and> n \<noteq> Fin 0)"
| "truthy (JString s) = (s \<noteq> [])"
| "truthy (JRef r) = True"

fun ToNumber :: "js_env \<Rightarrow> jsval \<Rightarrow> jsnum" where
  "ToNumber E JUndefined = NaN"
| "ToNumber E JNull = Fin 0"
| "ToNumber E (JBool b) = (if b then Fin 1 else Fin 0)"
| "ToNumber E (JNumber n) = n"
| "ToNumber E (JString s) = StringToNumber E s"
| "ToNumber E (JRef r) = RefToNumber E r"

text \<open>\<open>Math.abs\<close> on a number.\<close>

fun abs_num :: "jsnum \<Rightarrow> jsnum" where
  "abs_num NaN = NaN"
| "abs_num (Fin r) = Fin \<bar>r\<bar>"
| "abs_num PosInf = PosInf"
| "abs_num NegInf = PosInf"

text \<open>\<open>Math.abs(v)\<close> converts its argument to a number first.\<close>

definition Math_abs :: "js_env \<Rightarrow> jsval \<Rightarrow> jsnum" where
  "Math_abs E v = abs_num (ToNumber E v)"

text \<open>\<open>a > b\<close> on numbers: false as soon as one side is \<open>NaN\<close>.\<close>

fun js_gt :: "jsnum \<Rightarrow> jsnum \<Rightarrow> bool" where
  "js_gt NaN b = False"
| "js_gt a NaN = False"
| "js_gt (Fin a) (Fin b) = (b < a)"
| "js_gt (Fin a) PosInf = False"
| "js_gt (Fin a) NegInf = True"
| "js_gt PosInf PosInf = False"
| "js_gt PosInf b = True"
| "js_gt NegInf b = False"

section \<open>String operations of the middleware\<close>

text \<open>\<open>s.startsWith(p)\<close>\<close>

definition startsWith :: "string \<Rightarrow> string \<Rightarrow> bool" where
  "startsWith s p = prefix p s"

text \<open>\<open>s.includes(p)\<close>: \<open>p\<close> occurs in \<open>s\<close> at some position.\<close>

fun includes_str :: "string \<Rightarrow> string \<Rightarrow> bool" where
  "includes_str [] p = (p = [])"
| "includes_str (c # cs) p = (prefix p (c # cs) \<or> includes_str cs p)"

section \<open>Responses\<close>

text \<open>
  A response is a status code and a JSON object, kept as the list of its fields in the
  order of the object literal. Times (\<open>Date.now()\<close>, a \<open>Date\<close>) are integer
  milliseconds.
\<close>

record coordinate =
  latitude :: jsval
  longitude :: jsval
  deviceId :: jsval
  timestamp :: int

datatype field =
    FBool bool
  | FNum int
  | FStr string
  | FDate int
  | FVal jsval
  | FDocs "coordinate list"

record response =
  status :: nat
  body :: "(string \<times> field) list"

text \<open>\<open>res.json(b)\<close> answers 200; \<open>res.status(c).json(b)\<close> answers \<open>c\<close>.\<close>

definition json :: "(string \<times> field) list \<Rightarrow> response" where
  "json b = \<lparr>status = 200, body = b\<rparr>"

definition status_json :: "nat \<Rightarrow> (string \<times> field) list \<Rightarrow> response" where
  "status_json c b = \<lparr>status = c, body = b\<rparr>"

text \<open>Reading a field of a response body; \<open>None\<close> when the body has no such field.\<close>

definition get_field :: "response \<Rightarrow> string \<Rightarrow> field option" where
  "get_field r k = map_of (body r) k"

section \<open>The API key middleware\<close>

datatype middleware_result = Next | Respond response

text \<open>
  \<open>path\<close> is \<open>req.path\<close>, \<open>apiKey\<close> is \<open>req.headers['x-api-key']\<close>
  (\<open>None\<close> when the header is absent) and \<open>API_KEY\<close> is \<open>process.env.API_KEY\<close>.
\<close>

definition api_key_middleware :: "string \<Rightarrow> string \<Rightarrow> string option \<Rightarrow> middleware_result" where
  "api_key_middleware API_KEY path apiKey =
     (if startsWith path ''/api'' \<and> \<not> includes_str path ''/status'' then
        (if apiKey \<noteq> Some API_KEY then
           Respond (status_json 401 [(''error'', FStr ''Unauthorized: Invalid API key'')])
         else Next)
      else Next)"

section \<open>The device state table\<close>

record deviceState =
  triggered :: bool
  expires :: int
  lastActive :: int

text \<open>
  \<open>deviceStates\<close> is a JavaScript \<open>Map\<close>: a list of entries in insertion order, with
  distinct keys. \<open>set\<close> replaces the value of a present key in place and appends an
  absent one (\<open>AList.update\<close>), \<open>get\<close> is \<open>map_of\<close>, \<open>delete\<close> is
  \<open>AList.delete\<close>.
\<close>

type_synonym deviceStates = "(jsval \<times> deviceState) list"

definition wf_states :: "deviceStates \<Rightarrow> bool" where
  "wf_states ds = distinct (map fst ds)"

text \<open>The persisted coordinate documents, oldest first.\<close>

type_synonym store = "coordinate list"

text \<open>
  The document store is external. Whether \<open>save()\<close> resolves or rejects (schema
  validation, connection) and what \<open>find()\<close> yields are inputs of the handlers.
\<close>

datatype save_outcome = SaveOk | SaveError string

datatype find_outcome = FindOk "coordinate list" | FindError string

section \<open>POST /api/device/trigger\<close>

text \<open>
  \<open>t_now\<close> is the value of \<open>Date.now()\<close> and \<open>t_date\<close> that of the following
  \<open>new Date()\<close>.
\<close>

definition post_device_trigger ::
  "deviceStates \<Rightarrow> jsval \<Rightarrow> int \<Rightarrow> int \<Rightarrow> deviceStates \<times> response" where
  "post_device_trigger ds dev t_now t_date =
     (if \<not> truthy dev then
        (ds, status_json 400 [(''error'', FStr ''Device ID is required''),
                              (''code'', FStr ''DEVICE_ID_REQUIRED'')])
      else
        (AList.update dev
           \<lparr>triggered = True, expires = t_now + 30000000, lastActive = t_date\<rparr> ds,
         json [(''message'', FStr ''Device triggered successfully''),
               (''status'', FStr ''active''),
               (''expiresIn'', FNum 30000000)]))"

section \<open>POST /api/device/data\<close>

text \<open>
  The guard of both data handlers:
  \<open>!deviceState?.triggered || deviceState.expires < Date.now()\<close>.
\<close>

definition not_active :: "deviceState option \<Rightarrow> int \<Rightarrow> bool" where
  "not_active st now =
     (case st of
        None \<Rightarrow> True
      | Some s \<Rightarrow> \<not> triggered s \<or> expires s < now)"

definition device_not_active :: response where
  "device_not_active =
     status_json 403 [(''error'', FStr ''Device not triggered or trigger expired''),
                      (''code'', FStr ''DEVICE_NOT_ACTIVE''),
                      (''solution'', FStr ''Send trigger request first'')]"

text \<open>
  The clock is read four times: \<open>t_check\<close> in the guard, \<open>t_touch\<close> for
  \<open>lastActive\<close>, \<open>t_stamp\<close> for the record's timestamp and \<open>t_resp\<close> for
  \<open>remainingTime\<close>. The response of a successful save carries the fields of the
  schema; the identifier the store adds is left out. Past the guard the entry exists, so
  the \<open>None\<close> case of the lookup below is never taken.
\<close>

definition post_device_data ::
  "js_env \<Rightarrow> deviceStates \<Rightarrow> store \<Rightarrow> jsval \<Rightarrow> jsval \<Rightarrow> jsval \<Rightarrow>
   int \<Rightarrow> int \<Rightarrow> int \<Rightarrow> int \<Rightarrow> save_outcome \<Rightarrow> deviceStates \<times> store \<times> response" where
  "post_device_data E ds db dev lat lon t_check t_touch t_stamp t_resp sv =
     (if \<not> truthy dev \<or> lat = JUndefined \<or> lon = JUndefined then
        (ds, db, status_json 400
           [(''error'', FStr ''Device ID, latitude and longitude are required''),
            (''code'', FStr ''INVALID_INPUT'')])
      else if js_gt (Math_abs E lat) (Fin 90) \<or> js_gt (Math_abs E lon) (Fin 180) then
        (ds, db, status_json 400
           [(''error'', FStr ''Invalid coordinates''),
            (''code'', FStr ''INVALID_COORDINATES'')])
      else if not_active (map_of ds dev) t_check then
        (ds, db, device_not_active)
      else
        (case map_of ds dev of
           None \<Rightarrow> (ds, db, device_not_active)
         | Some s \<Rightarrow>
             let s' = s\<lparr>lastActive := t_touch\<rparr>;
                 ds' = AList.update dev s' ds;
                 newCoordinate = \<lparr>latitude = lat, longitude = lon, deviceId = dev,
                                  timestamp = t_stamp\<rparr>
             in (case sv of
                   SaveError msg \<Rightarrow>
                     (ds', db, status_json 500
                        [(''error'', FStr msg), (''code'', FStr ''DATABASE_ERROR'')])
                 | SaveOk \<Rightarrow>
                     (ds', db @ [newCoordinate], status_json 201
                        [(''latitude'', FVal lat),
                         (''longitude'', FVal lon),
                         (''deviceId'', FVal dev),
                         (''timestamp'', FDate t_stamp),
                         (''remainingTime'', FNum (expires s' - t_resp))]))))"

section \<open>GET /api/device/status/:deviceId\<close>

text \<open>\<open>deviceState.triggered && deviceState.expires > Date.now()\<close>\<close>

definition isActive :: "deviceState \<Rightarrow> int \<Rightarrow> bool" where
  "isActive s now = (triggered s \<and> expires s > now)"

text \<open>
  The path parameter is a string. \<open>t_check\<close> is the clock read of \<open>isActive\<close>,
  \<open>t_resp\<close> the one of \<open>expiresIn\<close>.
\<close>

definition get_device_status :: "deviceStates \<Rightarrow> string \<Rightarrow> int \<Rightarrow> int \<Rightarrow> response" where
  "get_device_status ds dev t_check t_resp =
     (case map_of ds (JString dev) of
        None \<Rightarrow>
          json [(''triggered'', FBool False),
                (''message'', FStr ''Device not triggered''),
                (''code'', FStr ''DEVICE_INACTIVE'')]
      | Some s \<Rightarrow>
          let active = isActive s t_check
          in json [(''triggered'', FBool active),
                   (''expiresIn'', FNum (if active then expires s - t_resp else 0)),
                   (''lastActive'', FDate (lastActive s)),
                   (''code'', FStr (if active then ''DEVICE_ACTIVE'' else ''DEVICE_EXPIRED''))])"

section \<open>GET /api/device/data/:deviceId\<close>

definition get_device_data ::
  "deviceStates \<Rightarrow> string \<Rightarrow> int \<Rightarrow> int \<Rightarrow> find_outcome \<Rightarrow> response" where
  "get_device_data ds dev t_check t_resp fo =
     (if not_active (map_of ds (JString dev)) t_check then device_not_active
      else
        (case map_of ds (JString dev) of
           None \<Rightarrow> device_not_active
         | Some s \<Rightarrow>
             (case fo of
                FindError msg \<Rightarrow>
                  status_json 500 [(''error'', FStr msg), (''code'', FStr ''DATABASE_ERROR'')]
              | FindOk coordinates \<Rightarrow>
                  if length coordinates = 0 then
                    status_json 404 [(''message'', FStr ''No data found for this device''),
                                     (''code'', FStr ''NO_DATA'')]
                  else
                    json [(''deviceId'', FVal (JString dev)),
                          (''count'', FNum (int (length coordinates))),
                          (''coordinates'', FDocs coordinates),
                          (''remainingTime'', FNum (expires s - t_resp))])))"

text \<open>
  The whole request \<open>GET /api/device/data/:deviceId\<close>: the middleware on the request's
  path, then the handler, for a path that the route matches. The path segment is taken
  as the parameter (no percent escapes).
\<close>

definition GET_api_device_data ::
  "string \<Rightarrow> string option \<Rightarrow> deviceStates \<Rightarrow> string \<Rightarrow> int \<Rightarrow> int \<Rightarrow> find_outcome \<Rightarrow> response" where
  "GET_api_device_data API_KEY apiKey ds dev t_check t_resp fo =
     (case api_key_middleware API_KEY (''/api/device/data/'' @ dev) apiKey of
        Respond r \<Rightarrow> r
      | Next \<Rightarrow> get_device_data ds dev t_check t_resp fo)"

section \<open>The cleanup timer\<close>

text \<open>
  The loop visits the entries of the map in order; it deletes the entry it is at when
  \<open>state.expires < now\<close> and counts it. Only the visited entry is ever deleted, so
  the loop sees every entry the map had when it started.
\<close>

fun cleanup_loop :: "(jsval \<times> deviceState) list \<Rightarrow> int \<Rightarrow> deviceStates \<Rightarrow> nat \<Rightarrow> deviceStates \<times> nat" where
  "cleanup_loop [] now ds cleanedCount = (ds, cleanedCount)"
| "cleanup_loop ((dev, state) # rest) now ds cleanedCount =
     (if expires state < now then
        cleanup_loop rest now (AList.delete dev ds) (cleanedCount + 1)
      else cleanup_loop rest now ds cleanedCount)"

definition cleanup :: "int \<Rightarrow> deviceStates \<Rightarrow> deviceStates \<times> nat" where
  "cleanup now ds = cleanup_loop ds now ds 0"

section \<open>Sequences of requests\<close>

text \<open>
  The requests that change the table or the store, with the values of their clock reads,
  and the server handling them one after the other. Each handler changes the table in one
  synchronous stretch, so the changes of two requests do not interleave.
\<close>

datatype request =
    Trigger jsval int int
  | Submit jsval jsval jsval int int int int save_outcome
  | Cleanup int

fun handle :: "js_env \<Rightarrow> request \<Rightarrow> deviceStates \<times> store \<Rightarrow> deviceStates \<times> store" where
  "handle E (Trigger dev t_now t_date) (ds, db) =
     (fst (post_device_trigger ds dev t_now t_date), db)"
| "handle E (Submit dev lat lon t_check t_touch t_stamp t_resp sv) (ds, db) =
     (let out = post_device_data E ds db dev lat lon t_check t_touch t_stamp t_resp sv
      in (fst out, fst (snd out)))"
| "handle E (Cleanup now) (ds, db) = (fst (cleanup now ds), db)"

fun serve :: "js_env \<Rightarrow> request list \<Rightarrow> deviceStates \<times> store \<Rightarrow> deviceStates \<times> store" where
  "serve E [] sys = sys"
| "serve E (r # rs) sys = serve E rs (handle E r sys)"

text \<open>
  The window of a device in a table: a triggered entry that expires at \<open>X\<close>; when
  \<open>present\<close> is false the entry may also be gone.
\<close>

definition window_at :: "deviceStates \<Rightarrow> jsval \<Rightarrow> int \<Rightarrow> bool \<Rightarrow> bool" where
  "window_at ds k X present =
     (case map_of ds k of
        None \<Rightarrow> \<not> present
      | Some s \<Rightarrow> triggered s \<and> expires s = X)"

section \<open>Auxiliary facts\<close>

lemma includes_str_iff: "includes_str s p \<longleftrightarrow> (\<exists>a b. s = a @ p @ b)"
proof (induction s)
  case Nil
  then show ?case by simp
next
  case (Cons c cs)
  show ?case
  proof
    assume "includes_str (c # cs) p"
    then consider "prefix p (c # cs)" | "includes_str cs p" by auto
    then show "\<exists>a b. c # cs = a @ p @ b"
    proof cases
      case 1
      then obtain b where "c # cs = p @ b" by (auto simp: prefix_def)
      then have "c # cs = [] @ p @ b" by simp
      then show ?thesis by blast
    next
      case 2
      with Cons.IH obtain a b where "cs = a @ p @ b" by blast
      then have "c # cs = (c # a) @ p @ b" by simp
      then show ?thesis by blast
    qed
  next
    assume "\<exists>a b. c # cs = a @ p @ b"
    then obtain a b where ab: "c # cs = a @ p @ b" by blast
    show "includes_str (c # cs) p"
    proof (cases a)
      case Nil
      with ab have "prefix p (c # cs)" by (simp add: prefix_def)
      then show ?thesis by simp
    next
      case (Cons x a')
      with ab have "cs = a' @ p @ b" by simp
      with Cons.IH have "includes_str cs p" by blast
      then show ?thesis by simp
    qed
  qed
qed

lemma cleanup_loop_eq:
  "cleanup_loop es T ds n =
     (filter (\<lambda>(k, s). k \<notin> fst ` {e \<in> set es. expires (snd e) < T}) ds,
      n + length (filter (\<lambda>(k, s). expires s < T) es))"
proof (induction es arbitrary: ds n)
  case Nil
  then show ?case by simp
next
  case (Cons e es)
  obtain k s where e: "e = (k, s)" by (cases e)
  show ?case
  proof (cases "expires s < T")
    case True
    then have keys: "fst ` {e' \<in> set ((k, s) # es). expires (snd e') < T}
        = insert k (fst ` {e \<in> set es. expires (snd e) < T})"
      by force
    have "filter (\<lambda>(k', s'). k' \<notin> fst ` {e \<in> set es. expires (snd e) < T}) (AList.delete k ds)
        = filter (\<lambda>(k', s'). k' \<notin> fst ` {e' \<in> set ((k, s) # es). expires (snd e') < T}) ds"
      unfolding keys by (auto simp: AList.delete_eq intro!: filter_cong)
    with True show ?thesis by (simp add: e Cons.IH)
  next
    case False
    then have keys: "fst ` {e' \<in> set ((k, s) # es). expires (snd e') < T}
        = fst ` {e \<in> set es. expires (snd e) < T}"
      by force
    have "filter (\<lambda>(k', s'). k' \<notin> fst ` {e \<in> set es. expires (snd e) < T}) ds
        = filter (\<lambda>(k', s'). k' \<notin> fst ` {e' \<in> set ((k, s) # es). expires (snd e') < T}) ds"
      unfolding keys by simp
    with False show ?thesis by (simp add: e Cons.IH)
  qed
qed

lemma cleanup_filter:
  assumes "wf_states ds"
  shows "cleanup T ds =
     (filter (\<lambda>(k, s). \<not> expires s < T) ds, length (filter (\<lambda>(k, s). expires s < T) ds))"
proof -
  have "filter (\<lambda>(k, s). k \<notin> fst ` {e \<in> set ds. expires (snd e) < T}) ds
      = filter (\<lambda>(k, s). \<not> expires s < T) ds"
  proof (rule filter_cong[OF refl])
    fix x assume x: "x \<in> set ds"
    obtain k s where ks: "x = (k, s)" by (cases x)
    have "k \<in> fst ` {e \<in> set ds. expires (snd e) < T} \<longleftrightarrow> expires s < T"
    proof
      assume "k \<in> fst ` {e \<in> set ds. expires (snd e) < T}"
      then obtain s' where s': "(k, s') \<in> set ds" "expires s' < T" by force
      from assms x ks s'(1) have "s' = s"
        unfolding wf_states_def by (meson eq_key_imp_eq_value)
      with s'(2) show "expires s < T" by simp
    next
      assume "expires s < T"
      with x ks show "k \<in> fst ` {e \<in> set ds. expires (snd e) < T}" by force
    qed
    then show "(case x of (k, s) \<Rightarrow> k \<notin> fst ` {e \<in> set ds. expires (snd e) < T})
             = (case x of (k, s) \<Rightarrow> \<not> expires s < T)" by (simp add: ks)
  qed
  then show ?thesis by (simp add: cleanup_def cleanup_loop_eq)
qed

lemma map_of_filter_distinct:
  "distinct (map fst xs) \<Longrightarrow>
   map_of (filter (\<lambda>(k, v). P v) xs) k
     = (case map_of xs k of None \<Rightarrow> None | Some v \<Rightarrow> if P v then Some v else None)"
proof (induction xs)
  case Nil
  then show ?case by simp
next
  case (Cons x xs)
  obtain k' v' where x: "x = (k', v')" by (cases x)
  from Cons.prems have d: "distinct (map fst xs)" and nk: "k' \<notin> fst ` set xs" by (auto simp: x)
  from nk have none: "map_of xs k' = None" by (simp add: map_of_eq_None_iff)
  show ?case
    using Cons.IH[OF d] none by (auto simp: x split: option.splits)
qed

lemma cleanup_removes_expired_key:
  assumes "map_of ds k = Some s" "expires s < T"
  shows "map_of (fst (cleanup T ds)) k = None"
proof -
  define K where "K = fst ` {e \<in> set ds. expires (snd e) < T}"
  from assms(1) have "(k, s) \<in> set ds" by (rule map_of_SomeD)
  with assms(2) have "k \<in> K" unfolding K_def by force
  then have "k \<notin> fst ` set (filter (\<lambda>(k, s). k \<notin> K) ds)"
    by auto
  then have "map_of (filter (\<lambda>(k, s). k \<notin> K) ds) k = None"
    by (rule map_of_eq_None_iff[THEN iffD2])
  then show ?thesis
    by (simp add: cleanup_def cleanup_loop_eq K_def)
qed

lemma includes_str_tl: "includes_str s (c # p) \<Longrightarrow> includes_str s p"
proof -
  assume "includes_str s (c # p)"
  then obtain a b where "s = a @ (c # p) @ b" by (auto simp: includes_str_iff)
  then have "s = (a @ [c]) @ p @ b" by simp
  then show ?thesis unfolding includes_str_iff by blast
qed

lemma data_path_status:
  "includes_str (''/api/device/data/'' @ dev) ''/status''
     \<longleftrightarrow> prefix ''status'' dev \<or> includes_str dev ''/status''"
  by simp

lemma get_device_data_status:
  "status (get_device_data ds dev t_check t_resp fo) \<in> {200, 403, 404, 500}"
  by (simp add: get_device_data_def device_not_active_def status_json_def json_def
      split: option.splits find_outcome.splits)

text \<open>On a finite number, \<open>Math.abs(x) > b\<close> is \<open>|x| > b\<close>.\<close>

lemma Math_abs_number: "js_gt (Math_abs E (JNumber (Fin r))) (Fin b) \<longleftrightarrow> b < \<bar>r\<bar>"
  by (simp add: Math_abs_def)

text \<open>A submission never changes \<open>triggered\<close> or \<open>expires\<close> of any entry.\<close>

lemma post_device_data_keeps_window:
  assumes "map_of ds k = Some s"
  shows "\<exists>s'. map_of (fst (post_device_data E ds db dev lat lon t_check t_touch t_stamp t_resp sv)) k
              = Some s'
            \<and> triggered s' = triggered s \<and> expires s' = expires s"
  using assms
  by (auto simp: post_device_data_def Let_def AList.update_conv'
      split: option.splits save_outcome.splits)

lemma map_of_cleanup:
  assumes "wf_states ds"
  shows "map_of (fst (cleanup T ds)) k
     = (case map_of ds k of None \<Rightarrow> None | Some s \<Rightarrow> if \<not> expires s < T then Some s else None)"
proof -
  from assms have d: "distinct (map fst ds)" by (simp add: wf_states_def)
  show ?thesis
    unfolding cleanup_filter[OF assms] fst_conv by (rule map_of_filter_distinct[OF d])
qed

lemma wf_states_cleanup: "wf_states ds \<Longrightarrow> wf_states (fst (cleanup T ds))"
  by (simp add: cleanup_filter) (simp add: wf_states_def distinct_map_filter)

lemma wf_states_trigger: "wf_states ds \<Longrightarrow> wf_states (fst (post_device_trigger ds dev a b))"
  by (simp add: post_device_trigger_def wf_states_def AList.distinct_update)

lemma wf_states_data:
  "wf_states ds \<Longrightarrow>
   wf_states (fst (post_device_data E ds db dev lat lon t_check t_touch t_stamp t_resp sv))"
  by (simp add: post_device_data_def wf_states_def AList.distinct_update Let_def
      split: option.splits save_outcome.splits)

lemma wf_states_handle: "wf_states (fst sys) \<Longrightarrow> wf_states (fst (handle E r sys))"
proof (cases sys)
  case (Pair ds db)
  assume "wf_states (fst sys)"
  with Pair have wf: "wf_states ds" by simp
  show ?thesis
  proof (cases r)
    case (Trigger dev a b)
    with Pair wf show ?thesis by (simp add: wf_states_trigger)
  next
    case (Submit dev lat lon t1 t2 t3 t4 sv)
    with Pair wf_states_data[OF wf, of E db dev lat lon t1 t2 t3 t4 sv] show ?thesis
      by (simp add: Let_def)
  next
    case (Cleanup T)
    with Pair wf show ?thesis by (simp add: wf_states_cleanup)
  qed
qed

lemma post_device_data_absent:
  "map_of ds k = None \<Longrightarrow>
   map_of (fst (post_device_data E ds db dev lat lon t_check t_touch t_stamp t_resp sv)) k = None"
  by (auto simp: post_device_data_def Let_def AList.update_conv'
      split: option.splits save_outcome.splits)

lemma handle_window:
  assumes wf: "wf_states (fst sys)" and w: "window_at (fst sys) k X present"
    and nt: "\<forall>a b. r \<noteq> Trigger k a b"
    and cl: "present \<longrightarrow> (\<forall>T. r = Cleanup T \<longrightarrow> T \<le> X)"
  shows "window_at (fst (handle E r sys)) k X present"
proof (cases sys)
  case (Pair ds db)
  with wf w have wf': "wf_states ds" and w': "window_at ds k X present" by simp_all
  show ?thesis
  proof (cases r)
    case (Trigger dev a b)
    with nt have "dev \<noteq> k" by auto
    then have "map_of (fst (post_device_trigger ds dev a b)) k = map_of ds k"
      by (simp add: post_device_trigger_def AList.update_conv')
    with w' Pair Trigger show ?thesis by (simp add: window_at_def)
  next
    case (Submit dev lat lon t1 t2 t3 t4 sv)
    show ?thesis
    proof (cases "map_of ds k")
      case None
      from post_device_data_absent[OF None, of E db dev lat lon t1 t2 t3 t4 sv] w' None Pair Submit
      show ?thesis by (simp add: window_at_def Let_def)
    next
      case (Some s)
      from post_device_data_keeps_window[OF Some, of E db dev lat lon t1 t2 t3 t4 sv]
      obtain s' where "map_of (fst (post_device_data E ds db dev lat lon t1 t2 t3 t4 sv)) k = Some s'"
        "triggered s' = triggered s" "expires s' = expires s" by blast
      with w' Some Pair Submit show ?thesis by (simp add: window_at_def Let_def)
    qed
  next
    case (Cleanup T)
    show ?thesis
    proof (cases present)
      case True
      with cl Cleanup have "T \<le> X" by simp
      with w' True Pair Cleanup show ?thesis
        by (auto simp: window_at_def map_of_cleanup[OF wf'] split: option.splits)
    next
      case False
      with w' Pair Cleanup show ?thesis
        by (simp add: window_at_def map_of_cleanup[OF wf'] split: option.splits)
    qed
  qed
qed

lemma serve_window:
  assumes "wf_states (fst sys)" and "window_at (fst sys) k X present"
    and "\<forall>a b. Trigger k a b \<notin> set rs"
    and "present \<longrightarrow> (\<forall>T. Cleanup T \<in> set rs \<longrightarrow> T \<le> X)"
  shows "window_at (fst (serve E rs sys)) k X present"
  using assms
proof (induction rs arbitrary: sys)
  case Nil
  then show ?case by simp
next
  case (Cons r rs)
  have 1: "wf_states (fst (handle E r sys))" using Cons.prems(1) by (rule wf_states_handle)
  have 2: "window_at (fst (handle E r sys)) k X present"
    using Cons.prems by (intro handle_window) auto
  show ?case
    using Cons.IH[OF 1 2] Cons.prems(3,4) by simp
qed

text \<open>
  Away from the instant \<open>now = expires\<close> the guard of the data handlers is the
  negation of the status handler's \<open>isActive\<close>.
\<close>

lemma not_active_iff_off_boundary:
  "expires s \<noteq> now \<Longrightarrow> not_active (Some s) now = (\<not> isActive s now)"
  by (auto simp: not_active_def isActive_def)

section \<open>Activity checks of the data and status handlers\<close>

text \<open>
  C1: the activity check of the submission handler and the one of the status handler are
  to return the same boolean on the same table at the same instant, also when the instant
  is the entry's \<open>expires\<close>. The code at that instant, for any triggered entry with
  \<open>expires = now\<close>: the guard \<open>expires < now\<close> of the submission handler does not
  fire, so a well-formed submission is answered 201, while \<open>expires > now\<close> of the
  status handler is false, so the status is \<open>triggered: false\<close> with code
  \<open>DEVICE_EXPIRED\<close>.
\<close>

theorem expiry_instant_accepted_yet_expired:
  assumes "dev \<noteq> []" and "map_of ds (JString dev) = Some s" and "triggered s"
    and "expires s = now"
  shows "\<not> not_active (map_of ds (JString dev)) now
       \<and> status (snd (snd (post_device_data E ds db (JString dev) (JNumber (Fin 10)) (JNumber (Fin 20))
            now t_touch t_stamp t_resp SaveOk))) = 201
       \<and> \<not> isActive s now
       \<and> get_device_status ds dev now t_resp' =
           json [(''triggered'', FBool False), (''expiresIn'', FNum 0),
                 (''lastActive'', FDate (lastActive s)), (''code'', FStr ''DEVICE_EXPIRED'')]"
  using assms
  by (simp add: post_device_data_def get_device_status_def not_active_def isActive_def
      Math_abs_def status_json_def)

theorem expiry_instant_accepted_yet_expired_witness:
  "status (snd (snd (post_device_data \<lparr>StringToNumber = (\<lambda>s. NaN), RefToNumber = (\<lambda>r. NaN)\<rparr>
       [(JString ''d1'', \<lparr>triggered = True, expires = 1000, lastActive = 0\<rparr>)] []
       (JString ''d1'') (JNumber (Fin 10)) (JNumber (Fin 20)) 1000 1000 1000 1000 SaveOk))) = 201
   \<and> get_device_status [(JString ''d1'', \<lparr>triggered = True, expires = 1000, lastActive = 0\<rparr>)]
        ''d1'' 1000 1000 =
      json [(''triggered'', FBool False), (''expiresIn'', FNum 0), (''lastActive'', FDate 0),
            (''code'', FStr ''DEVICE_EXPIRED'')]"
  using expiry_instant_accepted_yet_expired
    [where dev = "''d1''"
       and ds = "[(JString ''d1'', \<lparr>triggered = True, expires = 1000, lastActive = 0\<rparr>)]"
       and s = "\<lparr>triggered = True, expires = 1000, lastActive = 0\<rparr>" and now = 1000
       and E = "\<lparr>StringToNumber = (\<lambda>s. NaN), RefToNumber = (\<lambda>r. NaN)\<rparr>"
       and db = "[]" and t_touch = 1000 and t_stamp = 1000 and t_resp = 1000 and t_resp' = 1000]
  by simp

section \<open>Status of an expired entry, before and after cleanup\<close>

text \<open>
  C2, as stated: the status response for a device is the same whether its expired entry
  is still in the table or has been removed by the cleanup. It is not: with the entry
  present the code is \<open>DEVICE_EXPIRED\<close> and the response has \<open>expiresIn\<close> and
  \<open>lastActive\<close>; after the cleanup the code is \<open>DEVICE_INACTIVE\<close> and the
  response has neither field.
\<close>

theorem status_expired_vs_removed_counterexample:
  "fst (cleanup 2000 [(JString ''d1'', \<lparr>triggered = True, expires = 1000, lastActive = 500\<rparr>)]) = []
   \<and> get_device_status [(JString ''d1'', \<lparr>triggered = True, expires = 1000, lastActive = 500\<rparr>)]
        ''d1'' 2000 2000 =
      json [(''triggered'', FBool False), (''expiresIn'', FNum 0), (''lastActive'', FDate 500),
            (''code'', FStr ''DEVICE_EXPIRED'')]
   \<and> get_device_status
        (fst (cleanup 2000 [(JString ''d1'', \<lparr>triggered = True, expires = 1000, lastActive = 500\<rparr>)]))
        ''d1'' 2000 2000 =
      json [(''triggered'', FBool False), (''message'', FStr ''Device not triggered''),
            (''code'', FStr ''DEVICE_INACTIVE'')]
   \<and> get_field (get_device_status [(JString ''d1'', \<lparr>triggered = True, expires = 1000, lastActive = 500\<rparr>)]
        ''d1'' 2000 2000) ''code''
     \<noteq> get_field (get_device_status
        (fst (cleanup 2000 [(JString ''d1'', \<lparr>triggered = True, expires = 1000, lastActive = 500\<rparr>)]))
        ''d1'' 2000 2000) ''code''"
  by (simp add: cleanup_def get_device_status_def isActive_def json_def get_field_def)

text \<open>
  C2, amended: for an entry with \<open>expires < T\<close>, a cleanup at \<open>T\<close> and a status
  request at \<open>now \<ge> T\<close>, the \<open>triggered\<close> flag is false both with the entry
  present and after its removal. The other fields differ: with the entry present the
  response is \<open>expiresIn = 0\<close>, the entry's \<open>lastActive\<close> and code
  \<open>DEVICE_EXPIRED\<close>; after the removal it is a message and code \<open>DEVICE_INACTIVE\<close>.
\<close>

theorem status_expired_then_removed:
  assumes "map_of ds (JString dev) = Some s" and "expires s < T" and "T \<le> now"
  shows "get_device_status ds dev now t_resp =
           json [(''triggered'', FBool False), (''expiresIn'', FNum 0),
                 (''lastActive'', FDate (lastActive s)), (''code'', FStr ''DEVICE_EXPIRED'')]
       \<and> get_device_status (fst (cleanup T ds)) dev now t_resp =
           json [(''triggered'', FBool False), (''message'', FStr ''Device not triggered''),
                 (''code'', FStr ''DEVICE_INACTIVE'')]
       \<and> get_field (get_device_status ds dev now t_resp) ''triggered'' = Some (FBool False)
       \<and> get_field (get_device_status (fst (cleanup T ds)) dev now t_resp) ''triggered''
           = Some (FBool False)"
proof -
  from assms have na: "\<not> isActive s now" by (simp add: isActive_def)
  have rm: "map_of (fst (cleanup T ds)) (JString dev) = None"
    using assms(1,2) by (rule cleanup_removes_expired_key)
  show ?thesis
    using assms(1) na rm by (simp add: get_device_status_def json_def get_field_def)
qed

theorem status_expired_then_removed_witness:
  "get_device_status [(JString ''d1'', \<lparr>triggered = True, expires = 1000, lastActive = 500\<rparr>)]
        ''d1'' 2000 2001 =
      json [(''triggered'', FBool False), (''expiresIn'', FNum 0), (''lastActive'', FDate 500),
            (''code'', FStr ''DEVICE_EXPIRED'')]
   \<and> get_device_status
        (fst (cleanup 1500 [(JString ''d1'', \<lparr>triggered = True, expires = 1000, lastActive = 500\<rparr>)]))
        ''d1'' 2000 2001 =
      json [(''triggered'', FBool False), (''message'', FStr ''Device not triggered''),
            (''code'', FStr ''DEVICE_INACTIVE'')]"
  using status_expired_then_removed
    [of "[(JString ''d1'', \<lparr>triggered = True, expires = 1000, lastActive = 500\<rparr>)]" "''d1''"
        "\<lparr>triggered = True, expires = 1000, lastActive = 500\<rparr>" 1500 2000 2001]
  by simp

section \<open>Which requests need the API key\<close>

text \<open>
  C3: the \<open>x-api-key\<close> check is skipped for every path that contains
  \<open>/status\<close> anywhere. So for every device id that begins with \<open>status\<close> the
  listing \<open>GET /api/device/data/:deviceId\<close> is answered by its handler whatever
  the key (never 401), while for a device id that does not contain \<open>status\<close> a
  missing or wrong key is answered 401.
\<close>

theorem status_substring_skips_api_key:
  "(includes_str path ''/status'' \<longrightarrow> api_key_middleware API_KEY path apiKey = Next)
   \<and> (prefix ''status'' dev \<longrightarrow>
        GET_api_device_data API_KEY apiKey ds dev t_check t_resp fo
          = get_device_data ds dev t_check t_resp fo
        \<and> status (GET_api_device_data API_KEY apiKey ds dev t_check t_resp fo) \<noteq> 401)
   \<and> (\<not> includes_str dev ''status'' \<and> apiKey \<noteq> Some API_KEY \<longrightarrow>
        GET_api_device_data API_KEY apiKey ds dev t_check t_resp fo
          = status_json 401 [(''error'', FStr ''Unauthorized: Invalid API key'')])"
proof (intro conjI impI)
  assume "includes_str path ''/status''"
  then show "api_key_middleware API_KEY path apiKey = Next"
    by (simp add: api_key_middleware_def)
next
  assume p: "prefix ''status'' dev"
  then have "includes_str (''/api/device/data/'' @ dev) ''/status''"
    by (simp only: data_path_status) simp
  then show eq: "GET_api_device_data API_KEY apiKey ds dev t_check t_resp fo
          = get_device_data ds dev t_check t_resp fo"
    by (simp add: GET_api_device_data_def api_key_middleware_def)
  show "status (GET_api_device_data API_KEY apiKey ds dev t_check t_resp fo) \<noteq> 401"
    using get_device_data_status[of ds dev t_check t_resp fo] unfolding eq by auto
next
  assume a: "\<not> includes_str dev ''status'' \<and> apiKey \<noteq> Some API_KEY"
  then have n1: "\<not> includes_str dev ''/status''"
    using includes_str_tl[of dev "CHR ''/''" "''status''"] by blast
  have n2: "\<not> prefix ''status'' dev"
  proof
    assume "prefix ''status'' dev"
    then obtain b where "dev = [] @ ''status'' @ b" by (auto simp: prefix_def)
    then have "includes_str dev ''status''" unfolding includes_str_iff by blast
    with a show False by simp
  qed
  from n1 n2 have "\<not> includes_str (''/api/device/data/'' @ dev) ''/status''"
    by (simp only: data_path_status) simp
  moreover have "startsWith (''/api/device/data/'' @ dev) ''/api''"
    by (simp add: startsWith_def)
  ultimately show "GET_api_device_data API_KEY apiKey ds dev t_check t_resp fo
          = status_json 401 [(''error'', FStr ''Unauthorized: Invalid API key'')]"
    using a by (simp add: GET_api_device_data_def api_key_middleware_def)
qed

theorem status_substring_skips_api_key_witness:
  "api_key_middleware ''secret'' ''/api/device/trigger/status'' None = Next
   \<and> GET_api_device_data ''secret'' None
        [(JString ''status-7'', \<lparr>triggered = True, expires = 5000, lastActive = 0\<rparr>)]
        ''status-7'' 1000 1001 (FindOk [])
       = status_json 404 [(''message'', FStr ''No data found for this device''),
                          (''code'', FStr ''NO_DATA'')]
   \<and> GET_api_device_data ''secret'' (Some ''guess'')
        [(JString ''d1'', \<lparr>triggered = True, expires = 5000, lastActive = 0\<rparr>)]
        ''d1'' 1000 1001 (FindOk [])
       = status_json 401 [(''error'', FStr ''Unauthorized: Invalid API key'')]"
proof -
  have 1: "api_key_middleware ''secret'' ''/api/device/trigger/status'' None = Next"
    using status_substring_skips_api_key
      [where path = "''/api/device/trigger/status''" and API_KEY = "''secret''" and apiKey = None]
    by simp
  have 2: "GET_api_device_data ''secret'' None
        [(JString ''status-7'', \<lparr>triggered = True, expires = 5000, lastActive = 0\<rparr>)]
        ''status-7'' 1000 1001 (FindOk [])
       = get_device_data
        [(JString ''status-7'', \<lparr>triggered = True, expires = 5000, lastActive = 0\<rparr>)]
        ''status-7'' 1000 1001 (FindOk [])"
    using status_substring_skips_api_key
      [where dev = "''status-7''" and API_KEY = "''secret''" and apiKey = None]
    by simp
  have 3: "GET_api_device_data ''secret'' (Some ''guess'')
        [(JString ''d1'', \<lparr>triggered = True, expires = 5000, lastActive = 0\<rparr>)]
        ''d1'' 1000 1001 (FindOk [])
       = status_json 401 [(''error'', FStr ''Unauthorized: Invalid API key'')]"
    using status_substring_skips_api_key
      [where dev = "''d1''" and API_KEY = "''secret''" and apiKey = "Some ''guess''"]
    by simp
  show ?thesis
    unfolding 2 using 1 3 by (simp add: get_device_data_def not_active_def)
qed

section \<open>The activation window\<close>

text \<open>
  C4: a device is triggered at \<open>t_act\<close> (window 30000000 ms); then any requests are
  handled, none of them a trigger of that device, the cleanups among them not later than
  the status request. The status handler then reports \<open>triggered: true\<close> at every
  instant before \<open>t_act + 30000000\<close> and \<open>triggered: false\<close> at every instant
  from \<open>t_act + 30000000\<close> on.
\<close>

theorem active_until_window_end:
  assumes "dev \<noteq> []" and "wf_states ds"
    and "\<forall>a b. Trigger (JString dev) a b \<notin> set rs"
    and "\<forall>T. Cleanup T \<in> set rs \<longrightarrow> T \<le> now"
  shows "(now < t_act + 30000000 \<longrightarrow>
            get_field (get_device_status
                (fst (serve E rs (fst (post_device_trigger ds (JString dev) t_act t_date), db)))
                dev now t_resp) ''triggered'' = Some (FBool True))
       \<and> (t_act + 30000000 \<le> now \<longrightarrow>
            get_field (get_device_status
                (fst (serve E rs (fst (post_device_trigger ds (JString dev) t_act t_date), db)))
                dev now t_resp) ''triggered'' = Some (FBool False))"
proof -
  let ?ds0 = "fst (post_device_trigger ds (JString dev) t_act t_date)"
  let ?ds1 = "fst (serve E rs (?ds0, db))"
  have wf0: "wf_states (fst (?ds0, db))" using assms(2) by (simp add: wf_states_trigger)
  have w0: "window_at (fst (?ds0, db)) (JString dev) (t_act + 30000000) p" for p
    using assms(1) by (simp add: window_at_def post_device_trigger_def AList.update_conv')
  show ?thesis
  proof (intro conjI impI)
    assume lt: "now < t_act + 30000000"
    with assms(4) have "True \<longrightarrow> (\<forall>T. Cleanup T \<in> set rs \<longrightarrow> T \<le> t_act + 30000000)" by fastforce
    from serve_window[OF wf0 w0 assms(3) this, of E]
    obtain s where "map_of ?ds1 (JString dev) = Some s" "triggered s" "expires s = t_act + 30000000"
      by (auto simp: window_at_def split: option.splits)
    with lt show "get_field (get_device_status ?ds1 dev now t_resp) ''triggered'' = Some (FBool True)"
      by (simp add: get_device_status_def isActive_def get_field_def json_def)
  next
    assume ge: "t_act + 30000000 \<le> now"
    have "False \<longrightarrow> (\<forall>T. Cleanup T \<in> set rs \<longrightarrow> T \<le> t_act + 30000000)" by simp
    from serve_window[OF wf0 w0 assms(3) this, of E]
    have "window_at ?ds1 (JString dev) (t_act + 30000000) False" .
    with ge show "get_field (get_device_status ?ds1 dev now t_resp) ''triggered'' = Some (FBool False)"
      by (auto simp: window_at_def get_device_status_def isActive_def get_field_def json_def
          split: option.splits)
  qed
qed

theorem active_until_window_end_witness:
  "get_field (get_device_status
      (fst (serve \<lparr>StringToNumber = (\<lambda>s. NaN), RefToNumber = (\<lambda>r. NaN)\<rparr>
         [Submit (JString ''d1'') (JNumber (Fin 10)) (JNumber (Fin 20)) 2000 2000 2000 2000 SaveOk,
          Cleanup 60000, Trigger (JString ''d2'') 70000 70000]
         (fst (post_device_trigger [] (JString ''d1'') 1000 1000), [])))
      ''d1'' 30000999 30000999) ''triggered'' = Some (FBool True)
   \<and> get_field (get_device_status
      (fst (serve \<lparr>StringToNumber = (\<lambda>s. NaN), RefToNumber = (\<lambda>r. NaN)\<rparr>
         [Submit (JString ''d1'') (JNumber (Fin 10)) (JNumber (Fin 20)) 2000 2000 2000 2000 SaveOk,
          Cleanup 60000, Trigger (JString ''d2'') 70000 70000]
         (fst (post_device_trigger [] (JString ''d1'') 1000 1000), [])))
      ''d1'' 30001000 30001000) ''triggered'' = Some (FBool False)"
  using active_until_window_end
    [where dev = "''d1''" and ds = "[]" and now = 30000999 and t_act = 1000 and t_date = 1000
       and db = "[]" and t_resp = 30000999
       and E = "\<lparr>StringToNumber = (\<lambda>s. NaN), RefToNumber = (\<lambda>r. NaN)\<rparr>"
       and rs = "[Submit (JString ''d1'') (JNumber (Fin 10)) (JNumber (Fin 20)) 2000 2000 2000 2000 SaveOk,
          Cleanup 60000, Trigger (JString ''d2'') 70000 70000]"]
    active_until_window_end
    [where dev = "''d1''" and ds = "[]" and now = 30001000 and t_act = 1000 and t_date = 1000
       and db = "[]" and t_resp = 30001000
       and E = "\<lparr>StringToNumber = (\<lambda>s. NaN), RefToNumber = (\<lambda>r. NaN)\<rparr>"
       and rs = "[Submit (JString ''d1'') (JNumber (Fin 10)) (JNumber (Fin 20)) 2000 2000 2000 2000 SaveOk,
          Cleanup 60000, Trigger (JString ''d2'') 70000 70000]"]
  by (simp add: wf_states_def)

text \<open>
  C5: a trigger of a device that already has an entry replaces the entry: the new
  \<open>expires\<close> is the clock read of the trigger plus 30000000 and the new
  \<open>lastActive\<close> is the date taken by the trigger, whatever the old entry held. The
  table keeps its keys (no second entry), the other devices keep their entries, and the
  response carries \<open>expiresIn = 30000000\<close>. When both clock reads give \<open>t1\<close> the
  entry is \<open>expires = t1 + 30000000\<close>, \<open>lastActive = t1\<close>.
\<close>

theorem retrigger_overwrites:
  assumes "truthy dev" and "map_of ds dev = Some old"
  shows "map_of (fst (post_device_trigger ds dev t1 t1')) dev
           = Some \<lparr>triggered = True, expires = t1 + 30000000, lastActive = t1'\<rparr>
       \<and> map fst (fst (post_device_trigger ds dev t1 t1')) = map fst ds
       \<and> (\<forall>k. k \<noteq> dev \<longrightarrow> map_of (fst (post_device_trigger ds dev t1 t1')) k = map_of ds k)
       \<and> get_field (snd (post_device_trigger ds dev t1 t1')) ''expiresIn'' = Some (FNum 30000000)"
proof -
  from assms(2) have "(dev, old) \<in> set ds" by (rule map_of_SomeD)
  then have "dev \<in> fst ` set ds" by force
  then have "map fst (AList.update dev \<lparr>triggered = True, expires = t1 + 30000000, lastActive = t1'\<rparr> ds)
      = map fst ds"
    by (simp add: AList.update_keys)
  with assms(1) show ?thesis
    by (simp add: post_device_trigger_def AList.update_conv' get_field_def json_def)
qed

theorem retrigger_overwrites_witness:
  "map_of (fst (post_device_trigger
       [(JString ''d1'', \<lparr>triggered = True, expires = 30001000, lastActive = 1000\<rparr>)]
       (JString ''d1'') 5000 5000)) (JString ''d1'')
     = Some \<lparr>triggered = True, expires = 30005000, lastActive = 5000\<rparr>"
  using retrigger_overwrites
    [of "JString ''d1''" "[(JString ''d1'', \<lparr>triggered = True, expires = 30001000, lastActive = 1000\<rparr>)]"
        "\<lparr>triggered = True, expires = 30001000, lastActive = 1000\<rparr>" 5000 5000]
  by simp

section \<open>Validation of a submission\<close>

text \<open>
  C6: a submission whose device id is truthy and whose latitude and longitude are present,
  with \<open>Math.abs(latitude) > 90\<close> or \<open>Math.abs(longitude) > 180\<close>, is answered 400
  \<open>INVALID_COORDINATES\<close> whatever the table holds; the table and the store are
  returned as they were.
\<close>

theorem out_of_range_rejected:
  assumes "truthy dev" and "lat \<noteq> JUndefined" and "lon \<noteq> JUndefined"
    and "js_gt (Math_abs E lat) (Fin 90) \<or> js_gt (Math_abs E lon) (Fin 180)"
  shows "post_device_data E ds db dev lat lon t_check t_touch t_stamp t_resp sv
           = (ds, db, status_json 400 [(''error'', FStr ''Invalid coordinates''),
                                       (''code'', FStr ''INVALID_COORDINATES'')])"
  using assms by (simp add: post_device_data_def)

theorem out_of_range_rejected_witness:
  "post_device_data \<lparr>StringToNumber = (\<lambda>s. NaN), RefToNumber = (\<lambda>r. NaN)\<rparr>
      [(JString ''d1'', \<lparr>triggered = True, expires = 5000, lastActive = 0\<rparr>)] []
      (JString ''d1'') (JNumber (Fin 999)) (JNumber (Fin 20)) 1000 1000 1000 1000 SaveOk
    = ([(JString ''d1'', \<lparr>triggered = True, expires = 5000, lastActive = 0\<rparr>)], [],
       status_json 400 [(''error'', FStr ''Invalid coordinates''),
                        (''code'', FStr ''INVALID_COORDINATES'')])"
  using out_of_range_rejected
    [of "JString ''d1''" "JNumber (Fin 999)" "JNumber (Fin 20)"
        "\<lparr>StringToNumber = (\<lambda>s. NaN), RefToNumber = (\<lambda>r. NaN)\<rparr>"]
  by (simp add: Math_abs_def)

section \<open>Status of a device without an entry\<close>

text \<open>
  C7, as stated: for a device without an entry the status response has the active flag
  false and a remaining-time field equal to 0. The response of that branch has no
  \<open>expiresIn\<close> field at all.
\<close>

theorem status_unknown_expiresIn_counterexample:
  "get_field (get_device_status [] ''d1'' 1000 1000) ''expiresIn'' \<noteq> Some (FNum 0)
   \<and> get_field (get_device_status [] ''d1'' 1000 1000) ''expiresIn'' = None"
  by (simp add: get_device_status_def get_field_def json_def)

text \<open>
  C7, amended: for a device without an entry the status response is
  \<open>triggered: false\<close>, a message and code \<open>DEVICE_INACTIVE\<close>; it has no
  \<open>expiresIn\<close> and no \<open>lastActive\<close> field.
\<close>

theorem status_unknown_device:
  assumes "map_of ds (JString dev) = None"
  shows "get_device_status ds dev t_check t_resp =
           json [(''triggered'', FBool False), (''message'', FStr ''Device not triggered''),
                 (''code'', FStr ''DEVICE_INACTIVE'')]
       \<and> get_field (get_device_status ds dev t_check t_resp) ''triggered'' = Some (FBool False)
       \<and> get_field (get_device_status ds dev t_check t_resp) ''expiresIn'' = None
       \<and> get_field (get_device_status ds dev t_check t_resp) ''lastActive'' = None"
  using assms by (simp add: get_device_status_def get_field_def json_def)

theorem status_unknown_device_witness:
  "get_device_status [(JString ''d2'', \<lparr>triggered = True, expires = 5000, lastActive = 0\<rparr>)]
      ''d1'' 1000 1000 =
     json [(''triggered'', FBool False), (''message'', FStr ''Device not triggered''),
           (''code'', FStr ''DEVICE_INACTIVE'')]"
  using status_unknown_device
    [of "[(JString ''d2'', \<lparr>triggered = True, expires = 5000, lastActive = 0\<rparr>)]" "''d1''" 1000 1000]
  by simp

section \<open>What the cleanup removes\<close>

text \<open>
  C8: on a table with distinct keys, the cleanup run at \<open>T\<close> deletes exactly the
  entries with \<open>expires < T\<close>; every entry with \<open>expires \<ge> T\<close> stays, with
  all its fields and in its place; no entry appears; and the count is the number of
  entries deleted.
\<close>

theorem cleanup_removes_exactly_expired:
  assumes "wf_states ds"
  shows "(\<forall>dev s. map_of ds dev = Some s \<and> expires s < T \<longrightarrow>
            map_of (fst (cleanup T ds)) dev = None)
       \<and> (\<forall>dev s. map_of ds dev = Some s \<and> T \<le> expires s \<longrightarrow>
            map_of (fst (cleanup T ds)) dev = Some s)
       \<and> (\<forall>dev. map_of ds dev = None \<longrightarrow> map_of (fst (cleanup T ds)) dev = None)
       \<and> fst (cleanup T ds) = filter (\<lambda>(dev, s). \<not> expires s < T) ds
       \<and> snd (cleanup T ds) = length (filter (\<lambda>(dev, s). expires s < T) ds)
       \<and> snd (cleanup T ds) = length ds - length (fst (cleanup T ds))
       \<and> wf_states (fst (cleanup T ds))"
proof -
  have c: "cleanup T ds =
     (filter (\<lambda>(k, s). \<not> expires s < T) ds, length (filter (\<lambda>(k, s). expires s < T) ds))"
    using assms by (rule cleanup_filter)
  from assms have d: "distinct (map fst ds)" by (simp add: wf_states_def)
  have m: "map_of (fst (cleanup T ds)) dev
     = (case map_of ds dev of None \<Rightarrow> None | Some s \<Rightarrow> if \<not> expires s < T then Some s else None)"
    for dev
    unfolding c fst_conv by (rule map_of_filter_distinct[OF d])
  have len: "length (filter (\<lambda>(k, s). expires s < T) ds)
      = length ds - length (filter (\<lambda>(k, s). \<not> expires s < T) ds)"
  proof -
    have "length (filter (\<lambda>x. expires (snd x) < T) ds)
        + length (filter (\<lambda>x. \<not> expires (snd x) < T) ds) = length ds"
      by (rule sum_length_filter_compl)
    then show ?thesis by (simp add: case_prod_unfold)
  qed
  have wf: "wf_states (filter (\<lambda>(k, s). \<not> expires s < T) ds)"
    using d by (simp add: wf_states_def distinct_map_filter)
  show ?thesis
    using len wf by (simp add: m) (simp add: c)
qed

theorem cleanup_removes_exactly_expired_witness:
  "cleanup 2000 [(JString ''a'', \<lparr>triggered = True, expires = 1999, lastActive = 0\<rparr>),
                 (JString ''b'', \<lparr>triggered = True, expires = 2000, lastActive = 7\<rparr>),
                 (JString ''c'', \<lparr>triggered = True, expires = 10, lastActive = 3\<rparr>)]
     = ([(JString ''b'', \<lparr>triggered = True, expires = 2000, lastActive = 7\<rparr>)], 2)"
proof -
  have wf: "wf_states [(JString ''a'', \<lparr>triggered = True, expires = 1999, lastActive = 0\<rparr>),
                 (JString ''b'', \<lparr>triggered = True, expires = 2000, lastActive = 7\<rparr>),
                 (JString ''c'', \<lparr>triggered = True, expires = 10, lastActive = 3\<rparr>)]"
    by (simp add: wf_states_def)
  show ?thesis
    using cleanup_removes_exactly_expired [OF wf, of 2000]
    by (simp add: prod_eq_iff)
qed

section \<open>Missing fields of a submission\<close>

text \<open>
  C9: the submission handler answers 400 \<open>INVALID_INPUT\<close> exactly when the device id
  is falsy or the latitude is \<open>undefined\<close> or the longitude is \<open>undefined\<close>. An
  empty-string device id is rejected as missing; a latitude or longitude that is \<open>0\<close>
  or \<open>null\<close> is not: such a submission passes on to the range validation (which it
  passes as well, \<open>Math.abs\<close> of both being 0).
\<close>

theorem invalid_input_iff:
  "(snd (snd (post_device_data E ds db dev lat lon t_check t_touch t_stamp t_resp sv))
      = status_json 400 [(''error'', FStr ''Device ID, latitude and longitude are required''),
                         (''code'', FStr ''INVALID_INPUT'')]
    \<longleftrightarrow> \<not> truthy dev \<or> lat = JUndefined \<or> lon = JUndefined)
   \<and> (get_field (snd (snd (post_device_data E ds db dev lat lon t_check t_touch t_stamp t_resp sv)))
        ''code'' = Some (FStr ''INVALID_INPUT'')
    \<longleftrightarrow> \<not> truthy dev \<or> lat = JUndefined \<or> lon = JUndefined)
   \<and> post_device_data E ds db (JString []) lat lon t_check t_touch t_stamp t_resp sv
       = (ds, db, status_json 400 [(''error'', FStr ''Device ID, latitude and longitude are required''),
                                   (''code'', FStr ''INVALID_INPUT'')])
   \<and> (truthy dev \<and> lat \<in> {JNumber (Fin 0), JNull} \<and> lon \<in> {JNumber (Fin 0), JNull} \<longrightarrow>
        get_field (snd (snd (post_device_data E ds db dev lat lon t_check t_touch t_stamp t_resp sv)))
            ''code'' \<notin> {Some (FStr ''INVALID_INPUT''), Some (FStr ''INVALID_COORDINATES'')})"
proof (intro conjI)
  show "(snd (snd (post_device_data E ds db dev lat lon t_check t_touch t_stamp t_resp sv))
      = status_json 400 [(''error'', FStr ''Device ID, latitude and longitude are required''),
                         (''code'', FStr ''INVALID_INPUT'')]
    \<longleftrightarrow> \<not> truthy dev \<or> lat = JUndefined \<or> lon = JUndefined)"
    by (simp add: post_device_data_def status_json_def device_not_active_def Let_def
        split: option.splits save_outcome.splits)
  show "(get_field (snd (snd (post_device_data E ds db dev lat lon t_check t_touch t_stamp t_resp sv)))
        ''code'' = Some (FStr ''INVALID_INPUT'')
    \<longleftrightarrow> \<not> truthy dev \<or> lat = JUndefined \<or> lon = JUndefined)"
    by (simp add: post_device_data_def get_field_def status_json_def device_not_active_def Let_def
        split: option.splits save_outcome.splits)
  show "post_device_data E ds db (JString []) lat lon t_check t_touch t_stamp t_resp sv
       = (ds, db, status_json 400 [(''error'', FStr ''Device ID, latitude and longitude are required''),
                                   (''code'', FStr ''INVALID_INPUT'')])"
    by (simp add: post_device_data_def)
  show "truthy dev \<and> lat \<in> {JNumber (Fin 0), JNull} \<and> lon \<in> {JNumber (Fin 0), JNull} \<longrightarrow>
        get_field (snd (snd (post_device_data E ds db dev lat lon t_check t_touch t_stamp t_resp sv)))
            ''code'' \<notin> {Some (FStr ''INVALID_INPUT''), Some (FStr ''INVALID_COORDINATES'')}"
    by (auto simp: post_device_data_def get_field_def status_json_def device_not_active_def Let_def
        Math_abs_def split: option.splits save_outcome.splits)
qed

theorem invalid_input_iff_witness:
  "post_device_data \<lparr>StringToNumber = (\<lambda>s. NaN), RefToNumber = (\<lambda>r. NaN)\<rparr>
      [(JString ''d1'', \<lparr>triggered = True, expires = 5000, lastActive = 0\<rparr>)] []
      (JString '''') (JNumber (Fin 10)) (JNumber (Fin 20)) 1000 1000 1000 1000 SaveOk
    = ([(JString ''d1'', \<lparr>triggered = True, expires = 5000, lastActive = 0\<rparr>)], [],
       status_json 400 [(''error'', FStr ''Device ID, latitude and longitude are required''),
                        (''code'', FStr ''INVALID_INPUT'')])
   \<and> get_field (snd (snd (post_device_data \<lparr>StringToNumber = (\<lambda>s. NaN), RefToNumber = (\<lambda>r. NaN)\<rparr>
      [(JString ''d1'', \<lparr>triggered = True, expires = 5000, lastActive = 0\<rparr>)] []
      (JString ''d1'') (JNumber (Fin 0)) JNull 1000 1000 1000 1000 SaveOk))) ''code''
      \<noteq> Some (FStr ''INVALID_INPUT'')"
  using invalid_input_iff
    [where E = "\<lparr>StringToNumber = (\<lambda>s. NaN), RefToNumber = (\<lambda>r. NaN)\<rparr>"
       and ds = "[(JString ''d1'', \<lparr>triggered = True, expires = 5000, lastActive = 0\<rparr>)]"
       and db = "[]" and dev = "JString ''d1''" and lat = "JNumber (Fin 0)" and lon = JNull
       and t_check = 1000 and t_touch = 1000 and t_stamp = 1000 and t_resp = 1000 and sv = SaveOk]
    invalid_input_iff
    [where E = "\<lparr>StringToNumber = (\<lambda>s. NaN), RefToNumber = (\<lambda>r. NaN)\<rparr>"
       and ds = "[(JString ''d1'', \<lparr>triggered = True, expires = 5000, lastActive = 0\<rparr>)]"
       and db = "[]" and dev = "JString ''d1''" and lat = "JNumber (Fin 10)" and lon = "JNumber (Fin 20)"
       and t_check = 1000 and t_touch = 1000 and t_stamp = 1000 and t_resp = 1000 and sv = SaveOk]
  by simp

section \<open>A submission whose save fails\<close>

text \<open>
  C10: for a submission that passes both validations and finds the device active,
  \<open>lastActive\<close> is set to the current date before the save. When the save fails the
  response is 500 \<open>DATABASE_ERROR\<close> and no record is added to the store, yet the
  entry keeps the new \<open>lastActive\<close>; when it succeeds the record is added and the
  response is 201. In both outcomes \<open>triggered\<close> and \<open>expires\<close> of the entry
  are what they were.
\<close>

theorem submit_touches_before_save:
  assumes "truthy dev" and "lat \<noteq> JUndefined" and "lon \<noteq> JUndefined"
    and "\<not> js_gt (Math_abs E lat) (Fin 90)" and "\<not> js_gt (Math_abs E lon) (Fin 180)"
    and "map_of ds dev = Some s" and "\<not> not_active (Some s) t_check"
  shows "post_device_data E ds db dev lat lon t_check t_touch t_stamp t_resp (SaveError msg)
           = (AList.update dev (s\<lparr>lastActive := t_touch\<rparr>) ds, db,
              status_json 500 [(''error'', FStr msg), (''code'', FStr ''DATABASE_ERROR'')])
       \<and> post_device_data E ds db dev lat lon t_check t_touch t_stamp t_resp SaveOk
           = (AList.update dev (s\<lparr>lastActive := t_touch\<rparr>) ds,
              db @ [\<lparr>latitude = lat, longitude = lon, deviceId = dev, timestamp = t_stamp\<rparr>],
              status_json 201 [(''latitude'', FVal lat), (''longitude'', FVal lon),
                               (''deviceId'', FVal dev), (''timestamp'', FDate t_stamp),
                               (''remainingTime'', FNum (expires s - t_resp))])
       \<and> map_of (fst (post_device_data E ds db dev lat lon t_check t_touch t_stamp t_resp sv)) dev
           = Some \<lparr>triggered = triggered s, expires = expires s, lastActive = t_touch\<rparr>"
  using assms
  by (cases sv) (simp_all add: post_device_data_def Let_def AList.update_conv')

theorem submit_touches_before_save_witness:
  "post_device_data \<lparr>StringToNumber = (\<lambda>s. NaN), RefToNumber = (\<lambda>r. NaN)\<rparr>
      [(JString ''d1'', \<lparr>triggered = True, expires = 5000, lastActive = 0\<rparr>)] []
      (JString ''d1'') (JNumber (Fin 10)) (JNumber (Fin 20)) 1000 1001 1002 1003 (SaveError ''down'')
    = ([(JString ''d1'', \<lparr>triggered = True, expires = 5000, lastActive = 1001\<rparr>)], [],
       status_json 500 [(''error'', FStr ''down''), (''code'', FStr ''DATABASE_ERROR'')])"
  using submit_touches_before_save
    [where E = "\<lparr>StringToNumber = (\<lambda>s. NaN), RefToNumber = (\<lambda>r. NaN)\<rparr>"
       and ds = "[(JString ''d1'', \<lparr>triggered = True, expires = 5000, lastActive = 0\<rparr>)]"
       and s = "\<lparr>triggered = True, expires = 5000, lastActive = 0\<rparr>"
       and db = "[]" and dev = "JString ''d1''" and lat = "JNumber (Fin 10)" and lon = "JNumber (Fin 20)"
       and t_check = 1000 and t_touch = 1001 and t_stamp = 1002 and t_resp = 1003
       and msg = "''down''"]
  by (simp add: Math_abs_def not_active_def)

end
